theory Spec2Isabelle
  imports Main
begin

section \<open>Python strings\<close>

text \<open>
  A Python \<open>str\<close> is a sequence of Unicode code points, and \<open>len\<close>, \<open>startswith\<close>,
  \<open>strip\<close>, \<open>replace\<close>, \<open>in\<close> and \<open>>\<close> all work on code points. A text is therefore
  a list of code points (natural numbers), so that tweets outside Latin-1 are covered;
  \<open>py ''RT @''\<close> is the text of an ASCII literal.
\<close>

type_synonym pystr = "nat list"

abbreviation py :: "string \<Rightarrow> pystr" where
  "py s \<equiv> map of_char s"

text \<open>\<open>s.startswith(p)\<close>.\<close>

definition startswith :: "pystr \<Rightarrow> pystr \<Rightarrow> bool" where
  "startswith s p = (take (length p) s = p)"

text \<open>\<open>sub in s\<close>: \<open>sub\<close> occurs in \<open>s\<close> as a contiguous substring.\<close>

fun contains :: "pystr \<Rightarrow> pystr \<Rightarrow> bool" where
  "contains sub [] = (sub = [])"
| "contains sub (c # cs) = (startswith (c # cs) sub \<or> contains sub cs)"

text \<open>
  The code points for which \<open>str.isspace\<close> holds; \<open>s.strip()\<close> without an argument
  removes them from both ends.
\<close>

definition isspace :: "nat \<Rightarrow> bool" where
  "isspace c = ((9 \<le> c \<and> c \<le> 13) \<or> (28 \<le> c \<and> c \<le> 32) \<or> c = 133 \<or> c = 160
     \<or> c = 5760 \<or> (8192 \<le> c \<and> c \<le> 8202) \<or> c = 8232 \<or> c = 8233 \<or> c = 8239
     \<or> c = 8287 \<or> c = 12288)"

definition strip :: "pystr \<Rightarrow> pystr" where
  "strip s = rev (dropWhile isspace (rev (dropWhile isspace s)))"

text \<open>
  \<open>s.replace(old, new)\<close>: every non-overlapping occurrence of \<open>old\<close> is replaced, scanning
  from the left. For an empty \<open>old\<close> Python inserts \<open>new\<close> before every code point and at
  the end.
\<close>

function replace_scan :: "pystr \<Rightarrow> pystr \<Rightarrow> pystr \<Rightarrow> pystr" where
  "replace_scan old new [] = []"
| "replace_scan old new (c # cs) =
     (if old \<noteq> [] \<and> startswith (c # cs) old
      then new @ replace_scan old new (drop (length old) (c # cs))
      else c # replace_scan old new cs)"
  by pat_completeness auto
termination
  by (relation "measure (\<lambda>(old, new, s). length s)") auto

definition replace :: "pystr \<Rightarrow> pystr \<Rightarrow> pystr \<Rightarrow> pystr" where
  "replace s old new =
     (if old = [] then new @ concat (map (\<lambda>c. c # new) s) else replace_scan old new s)"

text \<open>\<open>a < b\<close> on two \<open>str\<close>: lexicographic on code points, a proper prefix is smaller.\<close>

fun str_less :: "pystr \<Rightarrow> pystr \<Rightarrow> bool" where
  "str_less [] [] = False"
| "str_less [] (y # ys) = True"
| "str_less (x # xs) [] = False"
| "str_less (x # xs) (y # ys) = (x < y \<or> (x = y \<and> str_less xs ys))"

text \<open>\<open>str(n)\<close> for an \<open>int\<close>: the decimal digits, with a leading minus sign below zero.\<close>

fun str_nat :: "nat \<Rightarrow> pystr" where
  "str_nat n = (if n < 10 then [48 + n] else str_nat (n div 10) @ [48 + n mod 10])"

declare str_nat.simps [simp del]

definition str :: "int \<Rightarrow> pystr" where
  "str i = (if i < 0 then 45 # str_nat (nat (- i)) else str_nat (nat i))"

section \<open>Data\<close>

text \<open>
  The fields of a tweepy status that the program reads: \<open>tweet.id\<close>, \<open>tweet.full_text\<close>,
  whether the attribute \<open>retweeted_status\<close> is there, and the \<open>url\<close> entry of every
  element of \<open>tweet.entities.get('urls', [])\<close>.
\<close>

record tweet =
  tweet_id :: int
  full_text :: pystr
  has_retweeted_status :: bool
  urls :: "pystr list"

datatype error = AttributeError | TypeError | TweepyError | AtprotoError | OSError
  | JSONDecodeError

text \<open>
  A value of the bookmark dictionary. The program itself only stores strings; what
  \<open>json.load\<close> reads from the file can be any JSON value, of which the program uses
  the truth value only (a comparison of a \<open>str\<close> with it raises).
\<close>

datatype jvalue = JStr pystr | JOther bool

text \<open>
  What \<open>json.load\<close> returns for a text that parses: a dictionary for a JSON object, and
  for any other JSON text a value that is not a dictionary (a list, a string, a number,
  a truth value or \<open>None\<close>).
\<close>

datatype loaded = Dictionary "pystr \<rightharpoonup> jvalue" | NotDictionary

text \<open>
  The file \<open>last_tweet_id.json\<close>: not there, there but \<open>open\<close> raises, there but
  \<open>json.load\<close> raises, holding a JSON object (which is what the program writes), or
  holding JSON whose top-level value is not an object.
\<close>

datatype file_state = Missing | Unreadable | Corrupt | Json "pystr \<rightharpoonup> jvalue"
  | JsonOther

datatype write_outcome = WriteOk | OpenFails | DumpFails

text \<open>The calls that leave the process: \<open>send_post\<close> with its text and whether it
  returned, and the write of the bookmark file.\<close>

datatype event = Send pystr bool | Save write_outcome

text \<open>
  The world outside the process answers the calls; the answer to a call may depend on
  the moment it is made (the number of calls made before it).
\<close>

record world =
  user_timeline :: "nat \<Rightarrow> pystr \<Rightarrow> int \<Rightarrow> error + tweet list"
  send_post :: "nat \<Rightarrow> pystr \<Rightarrow> error + unit"
  file_write :: "nat \<Rightarrow> write_outcome"

text \<open>What the program reads of \<open>config.yaml\<close> after start-up.\<close>

datatype monitor_cfg = MonitorAbsent | MonitorNotDict | MonitorDict "int option"

record config =
  monitor :: monitor_cfg
  target_users :: "pystr option list"

text \<open>
  An instance of \<open>TwitterToBluesky\<close> whose \<open>self.last_tweet_ids\<close> is a dictionary: that
  dictionary, the content of the file named by \<open>self.last_tweet_file\<close>, the number of
  outside calls made so far and their trace.
\<close>

record bot =
  last_tweet_ids :: "pystr \<rightharpoonup> jvalue"
  last_tweet_file :: file_state
  clock :: nat
  log :: "event list"

section \<open>Bookmark file\<close>

text \<open>\<open>open(self.last_tweet_file, 'r')\<close> followed by \<open>json.load\<close>.\<close>

definition read_json :: "file_state \<Rightarrow> error + loaded" where
  "read_json f =
     (case f of Missing \<Rightarrow> Inl OSError | Unreadable \<Rightarrow> Inl OSError
      | Corrupt \<Rightarrow> Inl JSONDecodeError | Json m \<Rightarrow> Inr (Dictionary m)
      | JsonOther \<Rightarrow> Inr NotDictionary)"

text \<open>The body of the \<open>try\<close> of \<open>_load_last_tweet_ids\<close>.\<close>

definition load_body :: "file_state \<Rightarrow> error + loaded" where
  "load_body f = (if f \<noteq> Missing then read_json f else Inr (Dictionary Map.empty))"

text \<open>\<open>_load_last_tweet_ids\<close>: what \<open>json.load\<close> returned is returned as it is, and the
  \<open>except\<close> turns an exception into \<open>{}\<close>; \<open>Inl\<close> would be an exception that reaches the
  caller.\<close>

definition load_last_tweet_ids :: "file_state \<Rightarrow> error + loaded" where
  "load_last_tweet_ids f =
     (case load_body f of Inl e \<Rightarrow> Inr (Dictionary Map.empty) | Inr v \<Rightarrow> Inr v)"

text \<open>\<open>_save_last_tweet_ids\<close>: opening for writing truncates the file, so a failure of
  \<open>json.dump\<close> leaves a file that no longer parses.\<close>

definition save_last_tweet_ids :: "world \<Rightarrow> bot \<Rightarrow> bot" where
  "save_last_tweet_ids w s =
     (let r = file_write w (clock s) in
      s\<lparr>last_tweet_file :=
           (case r of WriteOk \<Rightarrow> Json (last_tweet_ids s)
            | OpenFails \<Rightarrow> last_tweet_file s
            | DumpFails \<Rightarrow> Corrupt),
        clock := Suc (clock s),
        log := log s @ [Save r]\<rparr>)"

section \<open>Fetching, filtering, publishing\<close>

definition get_user_tweets :: "world \<Rightarrow> pystr \<Rightarrow> int \<Rightarrow> bot \<Rightarrow> tweet list \<times> bot" where
  "get_user_tweets w username count s =
     (case user_timeline w (clock s) username count of
        Inr tweets \<Rightarrow> (tweets, s\<lparr>clock := Suc (clock s)\<rparr>)
      | Inl e \<Rightarrow> ([], s\<lparr>clock := Suc (clock s)\<rparr>))"

text \<open>The loop \<open>for url in tweet.entities.get('urls', [])\<close> that removes every listed
  URL from the text.\<close>

definition text_without_url :: "tweet \<Rightarrow> pystr" where
  "text_without_url t = foldl (\<lambda>acc url. replace acc url []) (full_text t) (urls t)"

definition is_mention_or_retweet :: "tweet \<Rightarrow> bool" where
  "is_mention_or_retweet t =
     (if has_retweeted_status t \<or> startswith (full_text t) (py ''RT @'') then True
      else if startswith (strip (full_text t)) (py ''@'') then True
      else if contains (py ''https://twitter.com/'') (full_text t)
              \<or> contains (py ''https://x.com/'') (full_text t)
      then (if length (strip (text_without_url t)) < 10 then True else False)
      else False)"

definition post_to_bluesky :: "world \<Rightarrow> pystr \<Rightarrow> bot \<Rightarrow> bool \<times> bot" where
  "post_to_bluesky w text s =
     (case send_post w (clock s) text of
        Inr u \<Rightarrow> (True, s\<lparr>clock := Suc (clock s), log := log s @ [Send text True]\<rparr>)
      | Inl e \<Rightarrow> (False, s\<lparr>clock := Suc (clock s), log := log s @ [Send text False]\<rparr>))"

section \<open>One pass over an account\<close>

text \<open>\<open>self.config.get('monitor', {}).get('max_tweets_per_check', 10)\<close>.\<close>

definition max_tweets_per_check :: "config \<Rightarrow> error + int" where
  "max_tweets_per_check cfg =
     (case monitor cfg of MonitorAbsent \<Rightarrow> Inr 10 | MonitorNotDict \<Rightarrow> Inl AttributeError
      | MonitorDict None \<Rightarrow> Inr 10 | MonitorDict (Some n) \<Rightarrow> Inr n)"

text \<open>The truth value of \<open>last_tweet_id\<close> in \<open>if last_tweet_id:\<close>.\<close>

definition truthy :: "jvalue option \<Rightarrow> bool" where
  "truthy v = (case v of None \<Rightarrow> False | Some (JStr x) \<Rightarrow> x \<noteq> [] | Some (JOther b) \<Rightarrow> b)"

text \<open>\<open>str(tweet.id) > last_tweet_id\<close>, a \<open>TypeError\<close> unless both are strings.\<close>

definition id_greater :: "tweet \<Rightarrow> jvalue option \<Rightarrow> error + bool" where
  "id_greater t v =
     (case v of Some (JStr x) \<Rightarrow> Inr (str_less x (str (tweet_id t))) | _ \<Rightarrow> Inl TypeError)"

text \<open>The loop \<open>for tweet in tweets: if str(tweet.id) > last_tweet_id: new_tweets.append(tweet)\<close>.\<close>

fun newer_tweets :: "tweet list \<Rightarrow> jvalue option \<Rightarrow> error + tweet list" where
  "newer_tweets [] v = Inr []"
| "newer_tweets (t # ts) v =
     (case id_greater t v of Inl e \<Rightarrow> Inl e
      | Inr b \<Rightarrow> (case newer_tweets ts v of Inl e \<Rightarrow> Inl e
                  | Inr new \<Rightarrow> Inr (if b then t # new else new)))"

text \<open>The selection of \<open>new_tweets\<close>: everything above the bookmark, or on the first
  run \<open>[tweets[0]]\<close>.\<close>

definition new_tweets :: "tweet list \<Rightarrow> jvalue option \<Rightarrow> error + tweet list" where
  "new_tweets tweets last_tweet_id =
     (if truthy last_tweet_id then newer_tweets tweets last_tweet_id
      else (case tweets of [] \<Rightarrow> Inr [] | t # ts \<Rightarrow> Inr [t]))"

definition filtered_tweets :: "tweet list \<Rightarrow> tweet list" where
  "filtered_tweets new = filter (\<lambda>t. \<not> is_mention_or_retweet t) new"

text \<open>The loop \<open>for tweet in filtered_tweets\<close> with its counter \<open>processed_count\<close>.\<close>

fun publish_loop :: "world \<Rightarrow> pystr \<Rightarrow> tweet list \<Rightarrow> nat \<times> bot \<Rightarrow> nat \<times> bot" where
  "publish_loop w username [] (processed_count, s) = (processed_count, s)"
| "publish_loop w username (t # ts) (processed_count, s) =
     (case post_to_bluesky w (full_text t) s of (success, s1) \<Rightarrow>
        publish_loop w username ts
          (if success then processed_count + 1 else processed_count,
           s1\<lparr>last_tweet_ids := (last_tweet_ids s1)(username \<mapsto> JStr (str (tweet_id t)))\<rparr>))"

text \<open>The body of the \<open>try\<close> of \<open>process_new_tweets\<close>; \<open>Inl\<close> is an exception raised in it,
  with the state at that moment.\<close>

definition process_body :: "config \<Rightarrow> world \<Rightarrow> pystr \<Rightarrow> bot \<Rightarrow> (error + nat) \<times> bot" where
  "process_body cfg w username s =
     (let last_tweet_id = last_tweet_ids s username in
      case max_tweets_per_check cfg of Inl e \<Rightarrow> (Inl e, s)
      | Inr max_tweets \<Rightarrow>
     (case get_user_tweets w username max_tweets s of (tweets, s1) \<Rightarrow>
      if tweets = [] then (Inr 0, s1)
      else (case new_tweets tweets last_tweet_id of Inl e \<Rightarrow> (Inl e, s1)
      | Inr new \<Rightarrow>
        if filtered_tweets new \<noteq> []
        then (case publish_loop w username (filtered_tweets new) (0, s1) of
                (processed_count, s2) \<Rightarrow> (Inr processed_count, save_last_tweet_ids w s2))
        else (Inr 0, s1))))"

definition process_new_tweets :: "config \<Rightarrow> world \<Rightarrow> pystr \<Rightarrow> bot \<Rightarrow> nat \<times> bot" where
  "process_new_tweets cfg w username s =
     (case process_body cfg w username s of
        (Inr processed_count, s') \<Rightarrow> (processed_count, s')
      | (Inl e, s') \<Rightarrow> (0, s'))"

section \<open>Cycles\<close>

text \<open>The loop \<open>for user in target_users\<close> of \<open>run_once\<close> and \<open>run\<close>; an entry is the value
  of \<open>user.get('username')\<close>.\<close>

fun process_users :: "config \<Rightarrow> world \<Rightarrow> pystr option list \<Rightarrow> bot \<Rightarrow> bot" where
  "process_users cfg w [] s = s"
| "process_users cfg w (user # users) s =
     (case user of None \<Rightarrow> process_users cfg w users s
      | Some username \<Rightarrow>
          if username = [] then process_users cfg w users s
          else process_users cfg w users (snd (process_new_tweets cfg w username s)))"

definition run_once :: "config \<Rightarrow> world \<Rightarrow> bot \<Rightarrow> bot" where
  "run_once cfg w s = process_users cfg w (target_users cfg) s"

text \<open>\<open>run\<close> repeats the cycle for ever; \<open>run_cycles n\<close> is the state after its first
  \<open>n\<close> cycles.\<close>

fun run_cycles :: "nat \<Rightarrow> config \<Rightarrow> world \<Rightarrow> bot \<Rightarrow> bot" where
  "run_cycles 0 cfg w s = s"
| "run_cycles (Suc n) cfg w s = run_cycles n cfg w (run_once cfg w s)"

text \<open>The texts handed to \<open>send_post\<close>, in call order.\<close>

fun sent_texts :: "event list \<Rightarrow> pystr list" where
  "sent_texts [] = []"
| "sent_texts (Send text ok # es) = text # sent_texts es"
| "sent_texts (Save r # es) = sent_texts es"

section \<open>Example inputs\<close>

text \<open>An original tweet with a given id and ASCII text and no listed URL.\<close>

definition plain_tweet :: "int \<Rightarrow> string \<Rightarrow> tweet" where
  "plain_tweet i txt =
     \<lparr>tweet_id = i, full_text = py txt, has_retweeted_status = False, urls = []\<rparr>"

text \<open>A retweet as the API marks it.\<close>

definition retweet :: "int \<Rightarrow> string \<Rightarrow> tweet" where
  "retweet i txt =
     \<lparr>tweet_id = i, full_text = py txt, has_retweeted_status = True, urls = []\<rparr>"

definition example_config :: config where
  "example_config = \<lparr>monitor = MonitorAbsent, target_users = [Some (py ''alice'')]\<rparr>"

text \<open>A world in which the timeline of every account is \<open>tweets\<close>, \<open>send_post\<close> raises
  for the texts in \<open>failing\<close> only, and the file can be written.\<close>

definition example_world :: "tweet list \<Rightarrow> pystr list \<Rightarrow> world" where
  "example_world tweets failing =
     \<lparr>user_timeline = (\<lambda>k username count. Inr tweets),
      send_post = (\<lambda>k text. if text \<in> set failing then Inl AtprotoError else Inr ()),
      file_write = (\<lambda>k. WriteOk)\<rparr>"

text \<open>A world in which every outside call fails.\<close>

definition offline_world :: world where
  "offline_world =
     \<lparr>user_timeline = (\<lambda>k username count. Inl TweepyError),
      send_post = (\<lambda>k text. Inl AtprotoError),
      file_write = (\<lambda>k. OpenFails)\<rparr>"

text \<open>An instance that has loaded a file with one bookmark, and one started without a file.\<close>

definition bookmarked :: "string \<Rightarrow> string \<Rightarrow> bot" where
  "bookmarked username v =
     \<lparr>last_tweet_ids = [py username \<mapsto> JStr (py v)],
      last_tweet_file = Json [py username \<mapsto> JStr (py v)], clock = 0, log = []\<rparr>"

definition fresh_bot :: bot where
  "fresh_bot = \<lparr>last_tweet_ids = Map.empty, last_tweet_file = Missing, clock = 0, log = []\<rparr>"


lemmas ex_defs = example_config_def example_world_def offline_world_def bookmarked_def
  fresh_bot_def plain_tweet_def retweet_def

lemmas run_defs = process_new_tweets_def process_body_def max_tweets_per_check_def
  get_user_tweets_def new_tweets_def truthy_def id_greater_def filtered_tweets_def
  is_mention_or_retweet_def post_to_bluesky_def save_last_tweet_ids_def
  startswith_def strip_def isspace_def str_def str_nat.simps run_once_def

section \<open>The exclusion predicate\<close>

text \<open>
  Claim C5. \<open>is_mention_or_retweet\<close> holds for every tweet that carries the retweet
  attribute or whose text begins with \<open>RT @\<close>, and for every tweet whose stripped text
  begins with \<open>@\<close>. The text \<open>thanks @bob!\<close> does not begin with \<open>@\<close> after stripping,
  and an original tweet with that text is not excluded.
\<close>

theorem exclusion_retweet_mention:
  "(has_retweeted_status t \<or> startswith (full_text t) (py ''RT @'') \<longrightarrow> is_mention_or_retweet t)
   \<and> (startswith (strip (full_text t)) (py ''@'') \<longrightarrow> is_mention_or_retweet t)
   \<and> \<not> startswith (strip (py ''thanks @bob!'')) (py ''@'')
   \<and> \<not> is_mention_or_retweet
         \<lparr>tweet_id = i, full_text = py ''thanks @bob!'', has_retweeted_status = False, urls = us\<rparr>"
  by (simp add: is_mention_or_retweet_def startswith_def strip_def isspace_def)

theorem exclusion_retweet_mention_witness:
  "startswith (py ''RT @alice: hi'') (py ''RT @'')
   \<and> is_mention_or_retweet (plain_tweet 1 ''RT @alice: hi'')
   \<and> startswith (strip (py '' @bob thanks!'')) (py ''@'')
   \<and> is_mention_or_retweet (plain_tweet 2 '' @bob thanks!'')"
proof -
  have a: "startswith (full_text (plain_tweet 1 ''RT @alice: hi'')) (py ''RT @'')"
    by (simp add: plain_tweet_def startswith_def)
  have b: "startswith (strip (full_text (plain_tweet 2  '' @bob thanks!''))) (py ''@'')"
    by (simp add: plain_tweet_def startswith_def strip_def isspace_def)
  from a b exclusion_retweet_mention [of "plain_tweet 1 ''RT @alice: hi''"]
    exclusion_retweet_mention [of "plain_tweet 2 '' @bob thanks!''"]
  show ?thesis by (simp add: plain_tweet_def)
qed





text \<open>
  With no listed URL the third rule never excludes: the link itself survives
  \<open>strip\<close> and is longer than 10 code points.
\<close>

lemma replace_empty_url: "replace s [] [] = s"
  by (induction s) (simp_all add: replace_def)

lemma contains_iff: "contains sub s \<longleftrightarrow> (\<exists>a b. s = a @ sub @ b)"
proof (induction s)
  case Nil
  then show ?case by auto
next
  case (Cons c cs)
  show ?case
  proof
    assume "contains sub (c # cs)"
    then consider "startswith (c # cs) sub" | "contains sub cs" by auto
    then show "\<exists>a b. c # cs = a @ sub @ b"
    proof cases
      case 1
      then have "c # cs = [] @ sub @ drop (length sub) (c # cs)"
        unfolding startswith_def by (metis append_Nil append_take_drop_id)
      then show ?thesis by blast
    next
      case 2
      with Cons obtain a b where "cs = a @ sub @ b" by blast
      then have "c # cs = (c # a) @ sub @ b" by simp
      then show ?thesis by blast
    qed
  next
    assume "\<exists>a b. c # cs = a @ sub @ b"
    then obtain a b where ab: "c # cs = a @ sub @ b" by blast
    show "contains sub (c # cs)"
    proof (cases a)
      case Nil
      with ab have "startswith (c # cs) sub" by (simp add: startswith_def)
      then show ?thesis by simp
    next
      case (Cons x a')
      with ab have "cs = a' @ sub @ b" by simp
      with Cons.IH have "contains sub cs" by blast
      then show ?thesis by simp
    qed
  qed
qed

lemma contains_length: "contains sub s \<Longrightarrow> length sub \<le> length s"
  by (auto simp: contains_iff)

lemma contains_rev: "contains sub s \<Longrightarrow> contains (rev sub) (rev s)"
proof -
  assume "contains sub s"
  then obtain a b where "s = a @ sub @ b" by (auto simp: contains_iff)
  then have "rev s = rev b @ rev sub @ rev a" by simp
  then show ?thesis unfolding contains_iff by blast
qed

lemma contains_dropWhile:
  "contains sub s \<Longrightarrow> sub \<noteq> [] \<Longrightarrow> \<not> P (hd sub) \<Longrightarrow> contains sub (dropWhile P s)"
proof (induction s)
  case Nil
  then show ?case by simp
next
  case (Cons c cs)
  show ?case
  proof (cases "P c")
    case True
    have "\<not> startswith (c # cs) sub"
    proof
      assume "startswith (c # cs) sub"
      then have "take (length sub) (c # cs) = sub" by (simp add: startswith_def)
      with Cons.prems(2) have "hd sub = c" by (cases sub) auto
      with True Cons.prems(3) show False by simp
    qed
    with Cons.prems(1) have "contains sub cs" by simp
    with Cons True show ?thesis by simp
  next
    case False
    with Cons.prems(1) show ?thesis by simp
  qed
qed

lemma contains_strip:
  assumes "contains sub s" "sub \<noteq> []" "\<not> isspace (hd sub)" "\<not> isspace (last sub)"
  shows "contains sub (strip s)"
proof -
  have "contains sub (dropWhile isspace s)"
    using assms by (simp add: contains_dropWhile)
  then have "contains (rev sub) (rev (dropWhile isspace s))" by (rule contains_rev)
  moreover have "\<not> isspace (hd (rev sub))" using assms by (simp add: hd_rev)
  ultimately have "contains (rev sub) (dropWhile isspace (rev (dropWhile isspace s)))"
    using assms(2) by (simp add: contains_dropWhile)
  then have "contains (rev (rev sub)) (strip s)"
    unfolding strip_def by (rule contains_rev)
  then show ?thesis by simp
qed

lemma link_survives_strip:
  assumes "contains (py ''https://twitter.com/'') s \<or> contains (py ''https://x.com/'') s"
  shows "10 \<le> length (strip s)"
proof -
  from assms consider "contains (py ''https://twitter.com/'') s" | "contains (py ''https://x.com/'') s"
    by blast
  then show ?thesis
  proof cases
    case 1
    then have "contains (py ''https://twitter.com/'') (strip s)"
      by (rule contains_strip) (simp_all add: isspace_def)
    from contains_length [OF this] show ?thesis by simp
  next
    case 2
    then have "contains (py ''https://x.com/'') (strip s)"
      by (rule contains_strip) (simp_all add: isspace_def)
    from contains_length [OF this] show ?thesis by simp
  qed
qed

lemma quote_rule_needs_listed_url:
  assumes "urls t = []" "\<not> has_retweeted_status t"
    "\<not> startswith (full_text t) (py ''RT @'')" "\<not> startswith (strip (full_text t)) (py ''@'')"
  shows "\<not> is_mention_or_retweet t"
proof -
  have "text_without_url t = full_text t" using assms(1) by (simp add: text_without_url_def)
  with assms link_survives_strip [of "full_text t"] show ?thesis
    by (auto simp: is_mention_or_retweet_def)
qed

section \<open>Loading the bookmark file\<close>

text \<open>
  For a file that is missing, cannot be opened or does not parse, \<open>_load_last_tweet_ids\<close>
  returns the empty dictionary, and for no state of the file does an exception reach the
  caller.
\<close>

lemma load_fails_soft:
  "(f = Missing \<or> f = Unreadable \<or> f = Corrupt
      \<longrightarrow> load_last_tweet_ids f = Inr (Dictionary Map.empty))
   \<and> (\<exists>v. load_last_tweet_ids f = Inr v)"
  by (cases f) (simp_all add: load_last_tweet_ids_def load_body_def read_json_def)

text \<open>
  Claim C7 fails on a damaged file that still parses. For a file holding JSON whose
  top-level value is not an object, \<open>_load_last_tweet_ids\<close> returns that value: the result
  is not a dictionary, and so not the empty one.
\<close>

theorem load_returns_non_dictionary:
  "load_last_tweet_ids JsonOther = Inr NotDictionary
   \<and> load_last_tweet_ids JsonOther \<noteq> Inr (Dictionary Map.empty)"
  by (simp add: load_last_tweet_ids_def load_body_def read_json_def)

section \<open>What a pass does to the state\<close>

lemma post_to_bluesky_state:
  "\<exists>ok. post_to_bluesky w text s
     = (ok, s\<lparr>clock := Suc (clock s), log := log s @ [Send text ok]\<rparr>)"
  by (cases "send_post w (clock s) text") (auto simp: post_to_bluesky_def)

lemma publish_loop_log:
  "\<exists>oks. length oks = length ts
     \<and> log (snd (publish_loop w u ts (c, s))) = log s @ map2 Send (map full_text ts) oks"
proof (induction ts arbitrary: c s)
  case Nil
  then show ?case by simp
next
  case (Cons t ts)
  obtain ok where p: "post_to_bluesky w (full_text t) s
      = (ok, s\<lparr>clock := Suc (clock s), log := log s @ [Send (full_text t) ok]\<rparr>)"
    using post_to_bluesky_state by blast
  let ?s2 = "s\<lparr>clock := Suc (clock s), log := log s @ [Send (full_text t) ok],
      last_tweet_ids := (last_tweet_ids s)(u \<mapsto> JStr (str (tweet_id t)))\<rparr>"
  from Cons.IH [of "if ok then c + 1 else c" ?s2]
  obtain oks where o: "length oks = length ts"
    "log (snd (publish_loop w u ts (if ok then c + 1 else c, ?s2)))
       = log ?s2 @ map2 Send (map full_text ts) oks" by blast
  have "length (ok # oks) = length (t # ts)" using o by simp
  moreover have "log (snd (publish_loop w u (t # ts) (c, s)))
      = log s @ map2 Send (map full_text (t # ts)) (ok # oks)"
    using p o by simp
  ultimately show ?case by blast
qed

lemma sent_texts_append: "sent_texts (xs @ ys) = sent_texts xs @ sent_texts ys"
  by (induction xs rule: sent_texts.induct) simp_all

lemma sent_texts_sends:
  "length oks = length txts \<Longrightarrow> sent_texts (map2 Send txts oks) = txts"
  by (induction txts oks rule: list_induct2') simp_all

lemma publish_loop_sent:
  "sent_texts (log (snd (publish_loop w u ts (c, s)))) = sent_texts (log s) @ map full_text ts"
proof -
  obtain oks where "length oks = length ts"
    "log (snd (publish_loop w u ts (c, s))) = log s @ map2 Send (map full_text ts) oks"
    using publish_loop_log by blast
  then show ?thesis by (simp add: sent_texts_append sent_texts_sends)
qed

lemma publish_loop_other:
  "v \<noteq> u \<Longrightarrow> last_tweet_ids (snd (publish_loop w u ts (c, s))) v = last_tweet_ids s v"
proof (induction ts arbitrary: c s)
  case Nil
  then show ?case by simp
next
  case (Cons t ts)
  obtain ok where p: "post_to_bluesky w (full_text t) s
      = (ok, s\<lparr>clock := Suc (clock s), log := log s @ [Send (full_text t) ok]\<rparr>)"
    using post_to_bluesky_state by blast
  show ?case using Cons p by simp
qed

lemma publish_loop_file:
  "last_tweet_file (snd (publish_loop w u ts (c, s))) = last_tweet_file s"
proof (induction ts arbitrary: c s)
  case Nil
  then show ?case by simp
next
  case (Cons t ts)
  obtain ok where p: "post_to_bluesky w (full_text t) s
      = (ok, s\<lparr>clock := Suc (clock s), log := log s @ [Send (full_text t) ok]\<rparr>)"
    using post_to_bluesky_state by blast
  show ?case using Cons p by simp
qed

lemma publish_loop_bookmark:
  "ts \<noteq> [] \<Longrightarrow>
   last_tweet_ids (snd (publish_loop w u ts (c, s))) u = Some (JStr (str (tweet_id (last ts))))"
proof (induction ts arbitrary: c s)
  case Nil
  then show ?case by simp
next
  case (Cons t ts)
  obtain ok where p: "post_to_bluesky w (full_text t) s
      = (ok, s\<lparr>clock := Suc (clock s), log := log s @ [Send (full_text t) ok]\<rparr>)"
    using post_to_bluesky_state by blast
  show ?case
  proof (cases ts)
    case Nil
    with p show ?thesis by simp
  next
    case (Cons t' ts')
    with Cons.IH p show ?thesis by simp
  qed
qed

lemma newer_tweets_filter:
  "newer_tweets ts (Some (JStr x)) = Inr (filter (\<lambda>t. str_less x (str (tweet_id t))) ts)"
  by (induction ts) (simp_all add: id_greater_def)

lemma save_other [simp]:
  "last_tweet_ids (save_last_tweet_ids w s) = last_tweet_ids s"
  "log (save_last_tweet_ids w s) = log s @ [Save (file_write w (clock s))]"
  by (simp_all add: save_last_tweet_ids_def Let_def)

lemma get_user_tweets_state:
  "snd (get_user_tweets w u n s) = s\<lparr>clock := Suc (clock s)\<rparr>"
  by (simp add: get_user_tweets_def split: sum.splits)

text \<open>The four ways a pass ends.\<close>

lemma process_cases:
  obtains
    (raised_early) e where "max_tweets_per_check cfg = Inl e"
      "process_new_tweets cfg w u s = (0, s)"
  | (nothing_fetched) n where "max_tweets_per_check cfg = Inr n"
      "fst (get_user_tweets w u n s) = []"
      "process_new_tweets cfg w u s = (0, s\<lparr>clock := Suc (clock s)\<rparr>)"
  | (raised_compare) n e where "max_tweets_per_check cfg = Inr n"
      "fst (get_user_tweets w u n s) \<noteq> []"
      "new_tweets (fst (get_user_tweets w u n s)) (last_tweet_ids s u) = Inl e"
      "process_new_tweets cfg w u s = (0, s\<lparr>clock := Suc (clock s)\<rparr>)"
  | (nothing_left) n new where "max_tweets_per_check cfg = Inr n"
      "fst (get_user_tweets w u n s) \<noteq> []"
      "new_tweets (fst (get_user_tweets w u n s)) (last_tweet_ids s u) = Inr new"
      "filtered_tweets new = []"
      "process_new_tweets cfg w u s = (0, s\<lparr>clock := Suc (clock s)\<rparr>)"
  | (published) n new where "max_tweets_per_check cfg = Inr n"
      "fst (get_user_tweets w u n s) \<noteq> []"
      "new_tweets (fst (get_user_tweets w u n s)) (last_tweet_ids s u) = Inr new"
      "filtered_tweets new \<noteq> []"
      "process_new_tweets cfg w u s =
         (fst (publish_loop w u (filtered_tweets new) (0, s\<lparr>clock := Suc (clock s)\<rparr>)),
          save_last_tweet_ids w
            (snd (publish_loop w u (filtered_tweets new) (0, s\<lparr>clock := Suc (clock s)\<rparr>))))"
proof (cases "max_tweets_per_check cfg")
  case (Inl e)
  then have "process_new_tweets cfg w u s = (0, s)"
    by (simp add: process_new_tweets_def process_body_def)
  with Inl show ?thesis by (rule raised_early)
next
  case (Inr n)
  obtain tweets where g: "get_user_tweets w u n s = (tweets, s\<lparr>clock := Suc (clock s)\<rparr>)"
    using get_user_tweets_state [of w u n s] by (cases "get_user_tweets w u n s") simp
  show ?thesis
  proof (cases "tweets = []")
    case True
    with Inr g have "process_new_tweets cfg w u s = (0, s\<lparr>clock := Suc (clock s)\<rparr>)"
      by (simp add: process_new_tweets_def process_body_def)
    with Inr g True show ?thesis by (intro nothing_fetched [of n]) simp_all
  next
    case False
    show ?thesis
    proof (cases "new_tweets tweets (last_tweet_ids s u)")
      case (Inl e)
      with Inr g False have "process_new_tweets cfg w u s = (0, s\<lparr>clock := Suc (clock s)\<rparr>)"
        by (simp add: process_new_tweets_def process_body_def)
      with Inr g False Inl show ?thesis by (intro raised_compare [of n e]) simp_all
    next
      case new: (Inr new)
      show ?thesis
      proof (cases "filtered_tweets new = []")
        case True
        with Inr g False new
        have "process_new_tweets cfg w u s = (0, s\<lparr>clock := Suc (clock s)\<rparr>)"
          by (simp add: process_new_tweets_def process_body_def)
        with Inr g False new True show ?thesis by (intro nothing_left [of n new]) simp_all
      next
        case ne: False
        with Inr g False new
        have "process_new_tweets cfg w u s =
         (fst (publish_loop w u (filtered_tweets new) (0, s\<lparr>clock := Suc (clock s)\<rparr>)),
          save_last_tweet_ids w
            (snd (publish_loop w u (filtered_tweets new) (0, s\<lparr>clock := Suc (clock s)\<rparr>))))"
          by (simp add: process_new_tweets_def process_body_def split: prod.splits)
        with Inr g False new ne show ?thesis by (intro published [of n new]) simp_all
      qed
    qed
  qed
qed

lemma publish_loop_clock:
  "clock (snd (publish_loop w u ts (c, s))) = clock s + length ts"
proof (induction ts arbitrary: c s)
  case Nil
  then show ?case by simp
next
  case (Cons t ts)
  obtain ok where p: "post_to_bluesky w (full_text t) s
      = (ok, s\<lparr>clock := Suc (clock s), log := log s @ [Send (full_text t) ok]\<rparr>)"
    using post_to_bluesky_state by blast
  show ?case using Cons p by simp
qed

lemma save_file:
  "file_write w (clock s) = WriteOk \<Longrightarrow>
   last_tweet_file (save_last_tweet_ids w s) = Json (last_tweet_ids s)"
  by (simp add: save_last_tweet_ids_def)

lemma process_log_extends:
  "\<exists>later. log (snd (process_new_tweets cfg w u s)) = log s @ later"
proof (cases cfg w u s rule: process_cases)
  case (published n new)
  obtain oks where "log (snd (publish_loop w u (filtered_tweets new) (0, s\<lparr>clock := Suc (clock s)\<rparr>)))
      = log (s\<lparr>clock := Suc (clock s)\<rparr>) @ map2 Send (map full_text (filtered_tweets new)) oks"
    using publish_loop_log by blast
  with published show ?thesis by simp
qed simp_all

lemma process_users_log_extends:
  "\<exists>later. log (process_users cfg w users s) = log s @ later"
proof (induction users arbitrary: s)
  case Nil
  then show ?case by simp
next
  case (Cons user users)
  show ?case
  proof (cases "user = None \<or> user = Some []")
    case True
    with Cons.IH [of s] show ?thesis by auto
  next
    case False
    then obtain username where u: "user = Some username" "username \<noteq> []" by auto
    obtain l1 where l1: "log (snd (process_new_tweets cfg w username s)) = log s @ l1"
      using process_log_extends by blast
    obtain l2 where "log (process_users cfg w users (snd (process_new_tweets cfg w username s)))
        = log (snd (process_new_tweets cfg w username s)) @ l2"
      using Cons.IH by blast
    with u l1 show ?thesis by simp
  qed
qed

lemma run_cycles_unfold:
  "run_cycles 1 cfg w s = run_once cfg w s"
  "run_cycles 2 cfg w s = run_once cfg w (run_once cfg w s)"
  by (simp_all add: numeral_2_eq_2)

section \<open>Frame and failed fetches\<close>

text \<open>
  Claim C9. A pass for \<open>username\<close> leaves the bookmark of every other account as
  it was.
\<close>

theorem pass_frame:
  "v \<noteq> username \<Longrightarrow>
   last_tweet_ids (snd (process_new_tweets cfg w username s)) v = last_tweet_ids s v"
  by (cases cfg w username s rule: process_cases) (simp_all add: publish_loop_other)

theorem pass_frame_witness:
  "last_tweet_ids (snd (process_new_tweets example_config
      (example_world [plain_tweet 7 ''seven''] []) (py ''bob'') (bookmarked ''alice'' ''5'')))
     (py ''alice'') = Some (JStr (py ''5''))
   \<and> last_tweet_ids (snd (process_new_tweets example_config
      (example_world [plain_tweet 7 ''seven''] []) (py ''bob'') (bookmarked ''alice'' ''5'')))
     (py ''bob'') = Some (JStr (py ''7''))"
proof -
  have ne: "py ''alice'' \<noteq> py ''bob''" by simp
  have "last_tweet_ids (bookmarked ''alice'' ''5'') (py ''alice'') = Some (JStr (py ''5''))"
    by (simp add: bookmarked_def)
  moreover have "last_tweet_ids (snd (process_new_tweets example_config
      (example_world [plain_tweet 7 ''seven''] []) (py ''bob'') (bookmarked ''alice'' ''5'')))
     (py ''bob'') = Some (JStr (py ''7''))"
    by (simp add: ex_defs run_defs)
  ultimately show ?thesis
    using pass_frame [OF ne, of example_config "example_world [plain_tweet 7 ''seven''] []"
        "bookmarked ''alice'' ''5''"]
    by simp
qed

text \<open>
  Claim C10. When \<open>user_timeline\<close> raises or returns an empty list, the pass returns 0,
  the dictionary and the bookmark file are as before, and nothing was sent or saved.
\<close>

theorem empty_fetch_changes_nothing:
  assumes "max_tweets_per_check cfg = Inr n"
    and "(\<exists>e. user_timeline w (clock s) username n = Inl e)
         \<or> user_timeline w (clock s) username n = Inr []"
  shows "fst (process_new_tweets cfg w username s) = 0
    \<and> last_tweet_ids (snd (process_new_tweets cfg w username s)) = last_tweet_ids s
    \<and> last_tweet_file (snd (process_new_tweets cfg w username s)) = last_tweet_file s
    \<and> log (snd (process_new_tweets cfg w username s)) = log s"
proof -
  from assms(2) have "fst (get_user_tweets w username n s) = []"
    by (auto simp: get_user_tweets_def)
  with assms(1) show ?thesis
    by (cases cfg w username s rule: process_cases) simp_all
qed

theorem empty_fetch_changes_nothing_witness:
  "max_tweets_per_check example_config = Inr 10
   \<and> user_timeline offline_world 0 (py ''alice'') 10 = Inl TweepyError
   \<and> user_timeline (example_world [] []) 0 (py ''alice'') 10 = Inr []
   \<and> process_new_tweets example_config offline_world (py ''alice'') (bookmarked ''alice'' ''5'')
       = (0, (bookmarked ''alice'' ''5'')\<lparr>clock := 1\<rparr>)
   \<and> last_tweet_ids (snd (process_new_tweets example_config (example_world [] []) (py ''alice'')
        (bookmarked ''alice'' ''5''))) = last_tweet_ids (bookmarked ''alice'' ''5'')"
proof -
  have c: "max_tweets_per_check example_config = Inr 10"
    by (simp add: example_config_def max_tweets_per_check_def)
  have a: "(\<exists>e. user_timeline offline_world (clock (bookmarked ''alice'' ''5'')) (py ''alice'') 10 = Inl e)
     \<or> user_timeline offline_world (clock (bookmarked ''alice'' ''5'')) (py ''alice'') 10 = Inr []"
    by (simp add: offline_world_def)
  have b: "(\<exists>e. user_timeline (example_world [] []) (clock (bookmarked ''alice'' ''5'')) (py ''alice'') 10 = Inl e)
     \<or> user_timeline (example_world [] []) (clock (bookmarked ''alice'' ''5'')) (py ''alice'') 10 = Inr []"
    by (simp add: example_world_def)
  have d: "process_new_tweets example_config offline_world (py ''alice'') (bookmarked ''alice'' ''5'')
       = (0, (bookmarked ''alice'' ''5'')\<lparr>clock := 1\<rparr>)"
    by (simp add: ex_defs run_defs)
  from empty_fetch_changes_nothing [OF c a] empty_fetch_changes_nothing [OF c b] c d
  show ?thesis by (simp add: offline_world_def example_world_def)
qed

section \<open>Selection\<close>

text \<open>
  With a non-empty string \<open>wm\<close> recorded for \<open>username\<close>, the pass selects exactly the
  fetched tweets whose \<open>str(id)\<close> is greater than \<open>wm\<close> as a string, and hands the texts of
  the selected tweets that are not excluded to \<open>send_post\<close> as the loop meets them, which
  is the order of the fetched list.
\<close>

lemma selection_above_bookmark:
  assumes "last_tweet_ids s username = Some (JStr wm)" and "wm \<noteq> []"
    and "max_tweets_per_check cfg = Inr n"
    and "user_timeline w (clock s) username n = Inr tweets"
  shows "new_tweets tweets (last_tweet_ids s username)
           = Inr (filter (\<lambda>t. str_less wm (str (tweet_id t))) tweets)
    \<and> sent_texts (log (snd (process_new_tweets cfg w username s)))
        = sent_texts (log s)
          @ map full_text (filtered_tweets (filter (\<lambda>t. str_less wm (str (tweet_id t))) tweets))"
proof -
  let ?sel = "filter (\<lambda>t. str_less wm (str (tweet_id t))) tweets"
  have sel: "new_tweets tweets (last_tweet_ids s username) = Inr ?sel"
    using assms(1,2) by (simp add: new_tweets_def truthy_def newer_tweets_filter)
  have g: "fst (get_user_tweets w username n s) = tweets"
    using assms(4) by (simp add: get_user_tweets_def)
  have "sent_texts (log (snd (process_new_tweets cfg w username s)))
        = sent_texts (log s) @ map full_text (filtered_tweets ?sel)"
  proof (cases cfg w username s rule: process_cases)
    case (raised_early e)
    with assms(3) show ?thesis by simp
  next
    case (nothing_fetched m)
    with assms(3) g have "tweets = []" by simp
    with nothing_fetched show ?thesis by (simp add: filtered_tweets_def)
  next
    case (raised_compare m e)
    with assms(3) g sel show ?thesis by simp
  next
    case (nothing_left m new)
    with assms(3) g sel have "filtered_tweets ?sel = []" by simp
    with nothing_left show ?thesis by simp
  next
    case (published m new)
    with assms(3) g sel have "new = ?sel" by simp
    with published show ?thesis by (simp add: publish_loop_sent sent_texts_append)
  qed
  with sel show ?thesis by simp
qed

text \<open>
  Claim C2 fails on a timeline fetched newest first. With bookmark 5 and the timeline
  7, 6, 5, 4, the tweets selected are 7 and 6, as the claim says, but the pass sends 7
  first and 6 second, not in ascending id order, and leaves the bookmark at 6.
\<close>

theorem published_newest_first:
  "new_tweets [plain_tweet 7 ''seven'', plain_tweet 6 ''six'', plain_tweet 5 ''five'',
       plain_tweet 4 ''four''] (Some (JStr (py ''5'')))
     = Inr [plain_tweet 7 ''seven'', plain_tweet 6 ''six'']
   \<and> process_new_tweets example_config
       (example_world [plain_tweet 7 ''seven'', plain_tweet 6 ''six'', plain_tweet 5 ''five'',
          plain_tweet 4 ''four''] []) (py ''alice'') (bookmarked ''alice'' ''5'')
     = (2, \<lparr>last_tweet_ids = [py ''alice'' \<mapsto> JStr (py ''6'')],
            last_tweet_file = Json [py ''alice'' \<mapsto> JStr (py ''6'')], clock = 4,
            log = [Send (py ''seven'') True, Send (py ''six'') True, Save WriteOk]\<rparr>)"
  by (simp add: ex_defs run_defs)

text \<open>
  Claim C4, as the program has it. With no bookmark for \<open>username\<close> and a non-empty fetch,
  exactly the first fetched tweet is selected, and nothing but that tweet (if it is not
  excluded) is sent; the first tweet is the most recent one when the timeline is
  newest first.
\<close>

theorem first_run_selects_first:
  assumes "last_tweet_ids s username = None" and "tweets \<noteq> []"
    and "max_tweets_per_check cfg = Inr n"
    and "user_timeline w (clock s) username n = Inr tweets"
  shows "new_tweets tweets (last_tweet_ids s username) = Inr [hd tweets]
    \<and> sent_texts (log (snd (process_new_tweets cfg w username s)))
        = sent_texts (log s) @ map full_text (filtered_tweets [hd tweets])
    \<and> (sorted_wrt (\<lambda>a b. tweet_id b < tweet_id a) tweets
        \<longrightarrow> (\<forall>t \<in> set tweets. tweet_id t \<le> tweet_id (hd tweets)))"
proof -
  have sel: "new_tweets tweets (last_tweet_ids s username) = Inr [hd tweets]"
    using assms(1,2) by (cases tweets) (simp_all add: new_tweets_def truthy_def)
  have g: "fst (get_user_tweets w username n s) = tweets"
    using assms(4) by (simp add: get_user_tweets_def)
  have sent: "sent_texts (log (snd (process_new_tweets cfg w username s)))
        = sent_texts (log s) @ map full_text (filtered_tweets [hd tweets])"
  proof (cases cfg w username s rule: process_cases)
    case (raised_early e)
    with assms(3) show ?thesis by simp
  next
    case (nothing_fetched m)
    with assms(2,3) g show ?thesis by simp
  next
    case (raised_compare m e)
    with assms(3) g sel show ?thesis by simp
  next
    case (nothing_left m new)
    with assms(3) g sel have "filtered_tweets [hd tweets] = []" by simp
    with nothing_left show ?thesis by simp
  next
    case (published m new)
    with assms(3) g sel have "new = [hd tweets]" by simp
    with published show ?thesis by (simp add: publish_loop_sent sent_texts_append)
  qed
  have "sorted_wrt (\<lambda>a b. tweet_id b < tweet_id a) tweets
        \<longrightarrow> (\<forall>t \<in> set tweets. tweet_id t \<le> tweet_id (hd tweets))"
    using assms(2) by (cases tweets) auto
  with sel sent show ?thesis by simp
qed

theorem first_run_selects_first_witness:
  "new_tweets [plain_tweet 7 ''seven'', plain_tweet 6 ''six'', plain_tweet 5 ''five''] None
     = Inr [plain_tweet 7 ''seven'']
   \<and> sent_texts (log (snd (process_new_tweets example_config
        (example_world [plain_tweet 7 ''seven'', plain_tweet 6 ''six'', plain_tweet 5 ''five''] [])
        (py ''alice'') fresh_bot))) = [py ''seven'']
   \<and> tweet_id (plain_tweet 5 ''five'') \<le> tweet_id (plain_tweet 7 ''seven'')"
proof -
  let ?tweets = "[plain_tweet 7 ''seven'', plain_tweet 6 ''six'', plain_tweet 5 ''five'']"
  have a: "last_tweet_ids fresh_bot (py ''alice'') = None" by (simp add: fresh_bot_def)
  have b: "?tweets \<noteq> []" by simp
  have c: "max_tweets_per_check example_config = Inr 10"
    by (simp add: example_config_def max_tweets_per_check_def)
  have d: "user_timeline (example_world ?tweets []) (clock fresh_bot) (py ''alice'') 10
      = Inr ?tweets"
    by (simp add: example_world_def)
  have f: "filtered_tweets [plain_tweet 7 ''seven''] = [plain_tweet 7 ''seven'']"
    by (simp add: filtered_tweets_def plain_tweet_def is_mention_or_retweet_def startswith_def
        strip_def isspace_def)
  have g: "log fresh_bot = []" by (simp add: fresh_bot_def)
  have h: "sorted_wrt (\<lambda>a b. tweet_id b < tweet_id a) ?tweets" by (simp add: plain_tweet_def)
  from first_run_selects_first [OF a b c d] h show ?thesis
    unfolding a by (simp add: f g) (simp add: plain_tweet_def)
qed

text \<open>When the timeline is not newest first, the selected tweet is not the most recent.\<close>

theorem first_run_counterexample:
  "new_tweets [plain_tweet 5 ''five'', plain_tweet 7 ''seven''] None
     = Inr [plain_tweet 5 ''five'']
   \<and> tweet_id (plain_tweet 5 ''five'') < tweet_id (plain_tweet 7 ''seven'')"
  by (simp add: new_tweets_def truthy_def plain_tweet_def)

section \<open>Saving\<close>

text \<open>
  Claim C8, as the program has it. When at least one selected tweet is left after
  filtering, the trace of the pass is the sends of the filtered tweets followed by one
  write of the bookmark file, after which, if the write succeeded, the file holds the
  dictionary; when none is left, nothing is written and the dictionary and the file are
  as before. The trace of the accounts processed afterwards in the cycle comes after
  that of the pass.
\<close>

theorem save_after_batch:
  assumes "max_tweets_per_check cfg = Inr n"
    and "user_timeline w (clock s) username n = Inr tweets"
    and "new_tweets tweets (last_tweet_ids s username) = Inr new"
    and "username \<noteq> []"
    and "s' = snd (process_new_tweets cfg w username s)"
  shows "(filtered_tweets new \<noteq> [] \<longrightarrow>
           (\<exists>oks r. length oks = length (filtered_tweets new)
              \<and> log s' = log s @ map2 Send (map full_text (filtered_tweets new)) oks @ [Save r]
              \<and> (r = WriteOk \<longrightarrow> last_tweet_file s' = Json (last_tweet_ids s'))))
    \<and> (filtered_tweets new = [] \<longrightarrow>
           log s' = log s \<and> last_tweet_file s' = last_tweet_file s
           \<and> last_tweet_ids s' = last_tweet_ids s)
    \<and> (\<exists>later. log (process_users cfg w (Some username # users) s) = log s' @ later)"
proof -
  have g: "fst (get_user_tweets w username n s) = tweets"
    using assms(2) by (simp add: get_user_tweets_def)
  have next_account: "\<exists>later. log (process_users cfg w (Some username # users) s) = log s' @ later"
    using assms(4,5) process_users_log_extends [of cfg w users s'] by simp
  show ?thesis
  proof (cases cfg w username s rule: process_cases)
    case (raised_early e)
    with assms(1) show ?thesis by simp
  next
    case (nothing_fetched m)
    with assms(1,3,5) g next_account show ?thesis
      by (simp add: new_tweets_def filtered_tweets_def split: if_splits)
  next
    case (raised_compare m e)
    with assms(1,3) g show ?thesis by simp
  next
    case (nothing_left m new')
    with assms(1,3) g have "filtered_tweets new = []" by simp
    with nothing_left assms(5) next_account show ?thesis by simp
  next
    case (published m new')
    with assms(1,3) g have new: "new' = new" "filtered_tweets new \<noteq> []" by simp_all
    let ?s1 = "s\<lparr>clock := Suc (clock s)\<rparr>"
    let ?s2 = "snd (publish_loop w username (filtered_tweets new) (0, ?s1))"
    have s': "s' = save_last_tweet_ids w ?s2"
      using published(5) new(1) assms(5) by simp
    obtain oks where oks: "length oks = length (filtered_tweets new)"
      "log ?s2 = log ?s1 @ map2 Send (map full_text (filtered_tweets new)) oks"
      using publish_loop_log by blast
    have "log s' = log s @ map2 Send (map full_text (filtered_tweets new)) oks
        @ [Save (file_write w (clock ?s2))]"
      using s' oks(2) by simp
    moreover have "file_write w (clock ?s2) = WriteOk \<longrightarrow>
        last_tweet_file s' = Json (last_tweet_ids s')"
      using s' by (simp add: save_file)
    ultimately show ?thesis using oks(1) new(2) next_account by blast
  qed
qed

theorem save_after_batch_witness:
  "filtered_tweets [plain_tweet 7 ''seven''] \<noteq> []
   \<and> log (snd (process_new_tweets example_config (example_world [plain_tweet 7 ''seven''] [])
          (py ''alice'') fresh_bot)) = [Send (py ''seven'') True, Save WriteOk]
   \<and> last_tweet_file (snd (process_new_tweets example_config
          (example_world [plain_tweet 7 ''seven''] []) (py ''alice'') fresh_bot))
       = Json [py ''alice'' \<mapsto> JStr (py ''7'')]
   \<and> filtered_tweets [retweet 7 ''RT @carol: hi''] = []
   \<and> log (snd (process_new_tweets example_config (example_world [retweet 7 ''RT @carol: hi''] [])
          (py ''alice'') fresh_bot)) = []"
proof -
  let ?w = "example_world [plain_tweet 7 ''seven''] []"
  let ?w' = "example_world [retweet 7 ''RT @carol: hi''] []"
  have c: "max_tweets_per_check example_config = Inr 10"
    by (simp add: example_config_def max_tweets_per_check_def)
  have d: "user_timeline ?w (clock fresh_bot) (py ''alice'') 10 = Inr [plain_tweet 7 ''seven'']"
    by (simp add: example_world_def)
  have d': "user_timeline ?w' (clock fresh_bot) (py ''alice'') 10 = Inr [retweet 7 ''RT @carol: hi'']"
    by (simp add: example_world_def)
  have e: "new_tweets [plain_tweet 7 ''seven''] (last_tweet_ids fresh_bot (py ''alice''))
      = Inr [plain_tweet 7 ''seven'']"
    by (simp add: new_tweets_def truthy_def fresh_bot_def)
  have e': "new_tweets [retweet 7 ''RT @carol: hi''] (last_tweet_ids fresh_bot (py ''alice''))
      = Inr [retweet 7 ''RT @carol: hi'']"
    by (simp add: new_tweets_def truthy_def fresh_bot_def)
  have u: "py ''alice'' \<noteq> []" by simp
  have f: "filtered_tweets [plain_tweet 7 ''seven''] \<noteq> []"
    by (simp add: filtered_tweets_def plain_tweet_def is_mention_or_retweet_def startswith_def
        strip_def isspace_def)
  have f': "filtered_tweets [retweet 7 ''RT @carol: hi''] = []"
    by (simp add: filtered_tweets_def retweet_def is_mention_or_retweet_def)
  have r: "process_new_tweets example_config ?w (py ''alice'') fresh_bot
      = (1, \<lparr>last_tweet_ids = [py ''alice'' \<mapsto> JStr (py ''7'')],
             last_tweet_file = Json [py ''alice'' \<mapsto> JStr (py ''7'')], clock = 3,
             log = [Send (py ''seven'') True, Save WriteOk]\<rparr>)"
    by (simp add: ex_defs run_defs)
  from save_after_batch [OF c d e u refl, of "[]"] save_after_batch [OF c d' e' u refl, of "[]"]
    f f' r
  show ?thesis by (simp add: fresh_bot_def)
qed

text \<open>
  On a first run whose only selected tweet is a retweet, the file is not written: it
  is still missing after the pass.
\<close>

theorem save_after_batch_counterexample:
  "new_tweets [retweet 7 ''RT @carol: hi''] (last_tweet_ids fresh_bot (py ''alice''))
     = Inr [retweet 7 ''RT @carol: hi'']
   \<and> log (snd (process_new_tweets example_config (example_world [retweet 7 ''RT @carol: hi''] [])
          (py ''alice'') fresh_bot)) = []
   \<and> last_tweet_file (snd (process_new_tweets example_config
          (example_world [retweet 7 ''RT @carol: hi''] []) (py ''alice'') fresh_bot)) = Missing"
  by (simp add: ex_defs run_defs)

section \<open>Bookmarks behind forwarded tweets\<close>

text \<open>
  Claim C1 fails on a timeline fetched newest first. With bookmark 5 and the timeline
  7, 6, the first cycle sends 7 and then 6 and leaves the bookmark at 6; the second
  cycle, on the same timeline, selects 7 again and sends it a second time.
\<close>

theorem repeated_forward:
  "run_cycles 1 example_config
       (example_world [plain_tweet 7 ''seven'', plain_tweet 6 ''six''] []) (bookmarked ''alice'' ''5'')
     = \<lparr>last_tweet_ids = [py ''alice'' \<mapsto> JStr (py ''6'')],
        last_tweet_file = Json [py ''alice'' \<mapsto> JStr (py ''6'')], clock = 4,
        log = [Send (py ''seven'') True, Send (py ''six'') True, Save WriteOk]\<rparr>
   \<and> sent_texts (log (run_cycles 2 example_config
       (example_world [plain_tweet 7 ''seven'', plain_tweet 6 ''six''] [])
       (bookmarked ''alice'' ''5''))) = [py ''seven'', py ''six'', py ''seven'']
   \<and> \<not> distinct (sent_texts (log (run_cycles 2 example_config
       (example_world [plain_tweet 7 ''seven'', plain_tweet 6 ''six''] [])
       (bookmarked ''alice'' ''5''))))"
  by (simp add: run_cycles_unfold ex_defs run_defs)

text \<open>
  Claim C3 fails on the same timeline. The send of 7 succeeds and the send of 6 fails;
  both are attempted, and the bookmark kept in memory and written to the file is 6,
  not 7.
\<close>

theorem bookmark_behind_forwarded:
  "process_new_tweets example_config
       (example_world [plain_tweet 7 ''seven'', plain_tweet 6 ''six''] [py ''six''])
       (py ''alice'') (bookmarked ''alice'' ''5'')
     = (1, \<lparr>last_tweet_ids = [py ''alice'' \<mapsto> JStr (py ''6'')],
            last_tweet_file = Json [py ''alice'' \<mapsto> JStr (py ''6'')], clock = 4,
            log = [Send (py ''seven'') True, Send (py ''six'') False, Save WriteOk]\<rparr>)"
  by (simp add: ex_defs run_defs)

end
